theory Spec2Isabelle
  imports Complex_Main
begin

section \<open>Python values and dictionaries\<close>

text \<open>
  The scoring endpoint of \<^verbatim>\<open>api_server.py\<close> receives its two maps from a JSON body, so an
  answer is whatever JSON scalar the caller sent: \<^verbatim>\<open>null\<close> (Python \<^verbatim>\<open>None\<close>), a boolean, an
  integer, a number with a fraction, or a string. Python's parser also accepts the
  literals \<^verbatim>\<open>NaN\<close>, \<^verbatim>\<open>Infinity\<close> and \<^verbatim>\<open>-Infinity\<close>. A finite float is the real number it
  denotes.
\<close>

datatype pyval =
  PyNone | PyBool bool | PyInt int | PyFloat real | PyNaN | PyInfinity | PyNegInfinity
  | PyStr string

text \<open>The value of a finite number; booleans are the integers 0 and 1.\<close>

fun py_num :: "pyval \<Rightarrow> real option" where
  "py_num (PyBool b) = Some (if b then 1 else 0)"
| "py_num (PyInt i) = Some (of_int i)"
| "py_num (PyFloat r) = Some r"
| "py_num v = None"

text \<open>
  Python's \<^verbatim>\<open>==\<close> on these values: \<^verbatim>\<open>NaN\<close> equals nothing, itself included; finite
  numbers compare by value (\<^verbatim>\<open>True == 1\<close>, \<^verbatim>\<open>1 == 1.0\<close>); an infinity equals only itself,
  \<^verbatim>\<open>None\<close> only \<^verbatim>\<open>None\<close>, a string only the same string.
\<close>

definition py_eq :: "pyval \<Rightarrow> pyval \<Rightarrow> bool" where
  "py_eq a b =
     (a \<noteq> PyNaN \<and> b \<noteq> PyNaN \<and>
      (case (py_num a, py_num b) of
         (Some x, Some y) \<Rightarrow> x = y
       | (None, None) \<Rightarrow> a = b
       | _ \<Rightarrow> False))"

text \<open>
  A dictionary is an association list in insertion order; iterating it yields the keys in
  that order and \<^verbatim>\<open>d[k]\<close> is \<open>map_of d k\<close>. \<^verbatim>\<open>d.get(k)\<close> returns \<^verbatim>\<open>None\<close> for a missing key.
\<close>

type_synonym 'q answers = "('q \<times> pyval) list"

definition dict_get :: "'q answers \<Rightarrow> 'q \<Rightarrow> pyval" where
  "dict_get d k = (case map_of d k of None \<Rightarrow> PyNone | Some v \<Rightarrow> v)"

datatype py_error = KeyError | ZeroDivisionError | IndexError | ValueError

section \<open>Float arithmetic\<close>

text \<open>
  Rounding a real to the nearest integer, a tie going to the even neighbour.
\<close>

definition round_half_even :: "real \<Rightarrow> int" where
  "round_half_even x =
     (let f = \<lfloor>x\<rfloor>; d = x - of_int f
      in if d < 1 / 2 then f
         else if 1 / 2 < d then f + 1
         else if even f then f else f + 1)"

text \<open>\<^verbatim>\<open>int.bit_length\<close>: the number of binary digits of a natural number.\<close>

fun bit_length :: "nat \<Rightarrow> nat" where
  "bit_length n = (if n = 0 then 0 else Suc (bit_length (n div 2)))"

text \<open>
  The binary exponent of a positive real \<open>x\<close>: the \<open>e\<close> with \<open>2\<^sup>e \<le> x < 2\<^sup>e\<^sup>+\<^sup>1\<close>
  (lemma \<open>binade_bounds\<close>).
\<close>

definition binade :: "real \<Rightarrow> int" where
  "binade x =
     (if 1 \<le> x then int (bit_length (nat \<lfloor>x\<rfloor>)) - 1
      else - int (bit_length (nat (\<lceil>1 / x\<rceil> - 1))))"

text \<open>
  A Python float is an IEEE 754 double: 53 significant binary digits, the smallest
  spacing \<open>2\<^sup>-\<^sup>1\<^sup>0\<^sup>7\<^sup>4\<close>. Every float operation returns the double nearest to the exact
  result, a tie going to the even significand. \<open>py_float x\<close> is that double for the exact
  result \<open>x\<close>. Overflow to infinity is left out: the scoring endpoint computes no value
  above a hundred.
\<close>

definition py_float :: "real \<Rightarrow> real" where
  "py_float x =
     (if x = 0 then 0
      else (let e = binade \<bar>x\<bar>; q = 2 powi (max (e - 52) (- 1074))
            in of_int (round_half_even (x / q)) * q))"

text \<open>
  Python's \<^verbatim>\<open>round(x, n)\<close> on a float: the exact value of \<open>x\<close> is rounded to \<open>n\<close> decimals,
  a tie going to the even last digit, and the decimal result is converted back to the
  nearest double. On the integer 0 it returns 0.
\<close>

definition py_round :: "real \<Rightarrow> nat \<Rightarrow> real" where
  "py_round x n = py_float (of_int (round_half_even (x * 10 ^ n)) / 10 ^ n)"

text \<open>
  Python's true division \<^verbatim>\<open>a / b\<close> on integers raises on a zero divisor and otherwise
  returns the double nearest to the exact quotient.
\<close>

definition py_truediv :: "nat \<Rightarrow> nat \<Rightarrow> py_error + real" where
  "py_truediv a b =
     (if b = 0 then Inl ZeroDivisionError else Inr (py_float (real a / real b)))"

section \<open>The scoring endpoint: \<^verbatim>\<open>validate_answers\<close> and \<^verbatim>\<open>get_grade\<close>\<close>

text \<open>\<^verbatim>\<open>get_grade\<close>, lines 302-315: an \<^verbatim>\<open>if/elif\<close> chain, first match wins.\<close>

definition get_grade :: "real \<Rightarrow> string" where
  "get_grade percentage =
     (if percentage \<ge> 90 then ''A+''
      else if percentage \<ge> 80 then ''A''
      else if percentage \<ge> 70 then ''B''
      else if percentage \<ge> 60 then ''C''
      else if percentage \<ge> 50 then ''D''
      else ''F'')"

record 'q comparison_row =
  question :: 'q
  detected :: pyval
  correct :: pyval
  is_correct :: bool

record 'q score_report =
  score :: nat
  total :: nat
  percentage :: real
  grade :: string
  comparison :: "'q comparison_row list"

text \<open>
  The loop of lines 274-289, \<^verbatim>\<open>for q_num in answer_key\<close>, over the keys still to visit.
  The loop state is the triple of the source's locals \<^verbatim>\<open>comparison\<close>, \<^verbatim>\<open>correct\<close> and
  \<^verbatim>\<open>total\<close>. The subscript \<^verbatim>\<open>answer_key[q_num]\<close> raises \<^verbatim>\<open>KeyError\<close> on a missing key.
\<close>

fun compare_answers ::
  "'q answers \<Rightarrow> 'q answers \<Rightarrow> 'q list \<Rightarrow> 'q comparison_row list \<times> nat \<times> nat
     \<Rightarrow> py_error + ('q comparison_row list \<times> nat \<times> nat)" where
  "compare_answers det akey [] st = Inr st"
| "compare_answers det akey (q_num # rest) (rows, n_correct, n_total) =
     (case map_of akey q_num of
        None \<Rightarrow> Inl KeyError
      | Some correct_ans \<Rightarrow>
          (let detected_ans = dict_get det q_num;
               ok = py_eq detected_ans correct_ans
           in compare_answers det akey rest
                (rows @ [\<lparr>question = q_num, detected = detected_ans,
                           correct = correct_ans, is_correct = ok\<rparr>],
                 if ok then n_correct + 1 else n_correct,
                 n_total + 1)))"

text \<open>
  Line 291: \<^verbatim>\<open>(correct / total * 100) if total > 0 else 0\<close>, a float division followed by
  a float multiplication, or the integer 0.
\<close>

definition score_percentage :: "nat \<Rightarrow> nat \<Rightarrow> py_error + real" where
  "score_percentage n_correct n_total =
     (if n_total > 0
      then (case py_truediv n_correct n_total of
              Inl e \<Rightarrow> Inl e
            | Inr q \<Rightarrow> Inr (py_float (q * 100)))
      else Inr 0)"

text \<open>
  Lines 266-299 of \<^verbatim>\<open>validate_answers\<close>: the comparison loop, then the report. The grade
  is taken from \<^verbatim>\<open>score_percentage\<close> itself, the reported percentage from its rounding.
\<close>

definition score_answers :: "'q answers \<Rightarrow> 'q answers \<Rightarrow> py_error + 'q score_report" where
  "score_answers det akey =
     (case compare_answers det akey (map fst akey) ([], 0, 0) of
        Inl e \<Rightarrow> Inl e
      | Inr (rows, n_correct, n_total) \<Rightarrow>
          (case score_percentage n_correct n_total of
             Inl e \<Rightarrow> Inl e
           | Inr sp \<Rightarrow>
               Inr \<lparr>score = n_correct, total = n_total, percentage = py_round sp 2,
                    grade = get_grade sp, comparison = rows\<rparr>))"

text \<open>
  The whole endpoint, lines 255-299: a body that is not JSON and a body without both
  fields are answered with status 400 before any comparison.
\<close>

record 'q validate_data =
  detected_answers :: "'q answers option"
  answer_key :: "'q answers option"

datatype 'q validate_request = NotJson | Json "'q validate_data"

datatype 'q validate_body =
  RequestMustBeJson | MissingRequiredFields | Report "'q score_report"

definition validate_answers ::
  "'q validate_request \<Rightarrow> py_error + ('q validate_body \<times> nat)" where
  "validate_answers req =
     (case req of
        NotJson \<Rightarrow> Inr (RequestMustBeJson, 400)
      | Json data \<Rightarrow>
          (case (detected_answers data, answer_key data) of
             (Some det, Some akey) \<Rightarrow>
               (case score_answers det akey of
                  Inl e \<Rightarrow> Inl e
                | Inr r \<Rightarrow> Inr (Report r, 200))
           | _ \<Rightarrow> Inr (MissingRequiredFields, 400)))"

section \<open>Strings: \<^verbatim>\<open>in\<close>, \<^verbatim>\<open>split\<close>, \<^verbatim>\<open>rsplit\<close>, \<^verbatim>\<open>lower\<close>\<close>

text \<open>
  \<open>find_sub sep s\<close> cuts \<open>s\<close> at the leftmost occurrence of \<open>sep\<close>: the text before it and
  the text after it. \<^verbatim>\<open>sep in s\<close> holds when there is one.
\<close>

fun find_sub :: "string \<Rightarrow> string \<Rightarrow> (string \<times> string) option" where
  "find_sub sep [] = (if sep = [] then Some ([], []) else None)"
| "find_sub sep (c # cs) =
     (if take (length sep) (c # cs) = sep then Some ([], drop (length sep) (c # cs))
      else (case find_sub sep cs of
              None \<Rightarrow> None
            | Some (before, after) \<Rightarrow> Some (c # before, after)))"

definition py_in :: "string \<Rightarrow> string \<Rightarrow> bool" where
  "py_in sep s = (find_sub sep s \<noteq> None)"

lemma find_sub_shorter:
  "find_sub sep s = Some (before, after) \<Longrightarrow> sep \<noteq> [] \<Longrightarrow> length after < length s"
  by (induction s arbitrary: before) (auto split: if_splits option.splits)

text \<open>
  \<^verbatim>\<open>s.split(sep)\<close> for a separator that is not empty: the pieces between the occurrences
  of \<open>sep\<close>, found left to right without overlap.
\<close>

function split_pieces :: "string \<Rightarrow> string \<Rightarrow> string list" where
  "split_pieces sep s =
     (if sep = [] then [s]
      else (case find_sub sep s of
              None \<Rightarrow> [s]
            | Some (before, after) \<Rightarrow> before # split_pieces sep after))"
  by pat_completeness auto
termination
  by (relation "measure (\<lambda>(sep, s). length s)") (auto dest: find_sub_shorter)

text \<open>Python raises \<^verbatim>\<open>ValueError\<close> on an empty separator.\<close>

definition py_split :: "string \<Rightarrow> string \<Rightarrow> py_error + string list" where
  "py_split sep s = (if sep = [] then Inl ValueError else Inr (split_pieces sep s))"

text \<open>\<^verbatim>\<open>xs[1]\<close> raises \<^verbatim>\<open>IndexError\<close> on a list shorter than two.\<close>

fun py_index1 :: "'a list \<Rightarrow> py_error + 'a" where
  "py_index1 (a # b # rest) = Inr b"
| "py_index1 xs = Inl IndexError"

text \<open>\<^verbatim>\<open>str.lower\<close> on ASCII text.\<close>

definition lower_char :: "char \<Rightarrow> char" where
  "lower_char c =
     (case map_of (zip ''ABCDEFGHIJKLMNOPQRSTUVWXYZ'' ''abcdefghijklmnopqrstuvwxyz'') c of
        None \<Rightarrow> c
      | Some l \<Rightarrow> l)"

definition lower :: "string \<Rightarrow> string" where
  "lower s = map lower_char s"

text \<open>\<^verbatim>\<open>s.rsplit('.', 1)[1]\<close> for an \<open>s\<close> that holds a dot: the text after the last dot.\<close>

definition rsplit_dot_1 :: "string \<Rightarrow> string" where
  "rsplit_dot_1 s = rev (takeWhile (\<lambda>c. c \<noteq> CHR ''.'') (rev s))"

section \<open>Configuration and admission\<close>

definition UPLOAD_FOLDER :: string where
  "UPLOAD_FOLDER = ''api_uploads''"

definition ALLOWED_EXTENSIONS :: "string set" where
  "ALLOWED_EXTENSIONS = {''png'', ''jpg'', ''jpeg'', ''bmp'', ''tiff''}"

text \<open>\<^verbatim>\<open>allowed_file\<close>, lines 59-60.\<close>

definition allowed_file :: "string \<Rightarrow> bool" where
  "allowed_file fname =
     (CHR ''.'' \<in> set fname \<and> lower (rsplit_dot_1 fname) \<in> ALLOWED_EXTENSIONS)"

text \<open>\<^verbatim>\<open>os.path.join\<close> with a folder that has no trailing separator.\<close>

definition os_path_join :: "string \<Rightarrow> string \<Rightarrow> string" where
  "os_path_join folder name = (if take 1 name = ''/'' then name else folder @ ''/'' @ name)"

section \<open>The world outside the handlers\<close>

text \<open>
  The staging folder is a store from paths to file contents.
\<close>

type_synonym bytes = "nat list"

type_synonym filesystem = "string \<rightharpoonup> bytes"

text \<open>
  The functions of the libraries the server calls are parameters of the model:
  \<^verbatim>\<open>werkzeug.utils.secure_filename\<close>; \<^verbatim>\<open>base64.b64decode\<close> and \<^verbatim>\<open>PIL.Image.open\<close>,
  which raise on malformed input (\<open>None\<close> here); the conversion of line 71
  (\<^verbatim>\<open>np.array\<close>, \<^verbatim>\<open>cv2.cvtColor\<close>), which raises on an image it cannot convert; and
  the encoding \<^verbatim>\<open>cv2.imwrite\<close> stores. So are the faults of the host's file system:
  for a folder and a path, whether \<^verbatim>\<open>file.save\<close> raises (and with which message), whether
  \<^verbatim>\<open>cv2.imwrite\<close> fails (it returns \<^verbatim>\<open>False\<close> and writes nothing), and whether \<^verbatim>\<open>os.remove\<close>
  raises.
\<close>

record ('p, 'a) libs =
  secure_filename :: "string \<Rightarrow> string"
  b64decode :: "string \<Rightarrow> bytes option"
  image_open :: "bytes \<Rightarrow> 'p option"
  cvt_color :: "'p \<Rightarrow> 'a option"
  imencode :: "'a \<Rightarrow> bytes"
  save_raises :: "filesystem \<Rightarrow> string \<Rightarrow> string option"
  imwrite_fails :: "filesystem \<Rightarrow> string \<Rightarrow> bool"
  remove_raises :: "filesystem \<Rightarrow> string \<Rightarrow> string option"

text \<open>
  \<^verbatim>\<open>decode_base64_image\<close>, lines 62-73. Every exception raised in the body is caught and
  turned into the result \<^verbatim>\<open>None\<close>.
\<close>

definition strip_data_url :: "string \<Rightarrow> py_error + string" where
  "strip_data_url base64_string =
     (if py_in ''base64,'' base64_string
      then (case py_split ''base64,'' base64_string of
              Inl e \<Rightarrow> Inl e
            | Inr pieces \<Rightarrow> py_index1 pieces)
      else Inr base64_string)"

definition decode_base64_image :: "('p, 'a) libs \<Rightarrow> string \<Rightarrow> 'a option" where
  "decode_base64_image L base64_string =
     (case strip_data_url base64_string of
        Inl e \<Rightarrow> None
      | Inr payload \<Rightarrow>
          (case b64decode L payload of
             None \<Rightarrow> None
           | Some img_data \<Rightarrow>
               (case image_open L img_data of
                  None \<Rightarrow> None
                | Some img \<Rightarrow> cvt_color L img)))"

text \<open>\<^verbatim>\<open>file.save(path)\<close>: the upload is written, or the call raises and writes nothing.\<close>

definition file_save ::
  "('p, 'a) libs \<Rightarrow> filesystem \<Rightarrow> string \<Rightarrow> bytes \<Rightarrow> string + filesystem" where
  "file_save L fs path content =
     (case save_raises L fs path of
        Some e \<Rightarrow> Inl e
      | None \<Rightarrow> Inr (fs(path \<mapsto> content)))"

text \<open>\<^verbatim>\<open>cv2.imwrite(path, image)\<close>; the handler ignores the value it returns.\<close>

definition cv2_imwrite ::
  "('p, 'a) libs \<Rightarrow> filesystem \<Rightarrow> string \<Rightarrow> 'a \<Rightarrow> filesystem" where
  "cv2_imwrite L fs path image_array =
     (if imwrite_fails L fs path then fs else fs(path \<mapsto> imencode L image_array))"

definition os_path_exists :: "filesystem \<Rightarrow> string \<Rightarrow> bool" where
  "os_path_exists fs path = (fs path \<noteq> None)"

text \<open>\<^verbatim>\<open>os.remove(path)\<close>: the file is deleted, or the call raises and deletes nothing.\<close>

definition os_remove :: "('p, 'a) libs \<Rightarrow> filesystem \<Rightarrow> string \<Rightarrow> string + filesystem" where
  "os_remove L fs path =
     (case remove_raises L fs path of
        Some e \<Rightarrow> Inl e
      | None \<Rightarrow> Inr (fs(path := None)))"

text \<open>The clean-up idiom of the source: \<^verbatim>\<open>if os.path.exists(filepath): os.remove(filepath)\<close>.\<close>

definition clean_up :: "('p, 'a) libs \<Rightarrow> filesystem \<Rightarrow> string \<Rightarrow> string + filesystem" where
  "clean_up L fs filepath =
     (if os_path_exists fs filepath then os_remove L fs filepath else Inr fs)"

text \<open>
  What the recognizer returns is a JSON-like dictionary with an open set of keys.
\<close>

datatype json =
  JNull | JBool bool | JInt int | JStr string | JList "json list" | JObj "(string \<times> json) list"

type_synonym dict = "(string \<times> json) list"

text \<open>\<^verbatim>\<open>d[k] = v\<close>: an existing key keeps its place, a new key goes last.\<close>

fun dict_set :: "dict \<Rightarrow> string \<Rightarrow> json \<Rightarrow> dict" where
  "dict_set [] k v = [(k, v)]"
| "dict_set ((k', v') # d) k v = (if k' = k then (k, v) # d else (k', v') # dict_set d k v)"

text \<open>\<^verbatim>\<open>len(x)\<close>; the error is the message of the \<^verbatim>\<open>TypeError\<close>.\<close>

definition no_len :: "string \<Rightarrow> string" where
  "no_len type_name =
     ''object of type '' @ [CHR 0x27] @ type_name @ [CHR 0x27] @ '' has no len()''"

fun py_len :: "json \<Rightarrow> string + nat" where
  "py_len (JStr s) = Inr (length s)"
| "py_len (JList xs) = Inr (length xs)"
| "py_len (JObj d) = Inr (length d)"
| "py_len JNull = Inl (no_len ''NoneType'')"
| "py_len (JBool b) = Inl (no_len ''bool'')"
| "py_len (JInt i) = Inl (no_len ''int'')"

text \<open>
  The handlers write into the dictionary the recognizer returns, so the dictionaries are
  objects in a store: an address holds the current contents of the object at it, and
  \<^verbatim>\<open>result[k] = v\<close> updates the store at the address of \<^verbatim>\<open>result\<close>.
\<close>

type_synonym heap = "nat \<Rightarrow> dict"

text \<open>
  \<^verbatim>\<open>processor.process_omr(filepath, debug=False)\<close> reads the staged file and either
  returns a dictionary object or raises; it may create objects and may return one it has
  returned before. The module-level \<^verbatim>\<open>processor\<close> is \<^verbatim>\<open>None\<close> when the model was not
  loaded at start-up.
\<close>

datatype recognition = Returns nat | Raises string

type_synonym recognizer = "filesystem \<Rightarrow> heap \<Rightarrow> string \<Rightarrow> recognition \<times> heap"

record file_storage =
  filename :: string
  stream :: bytes

type_synonym response = "json \<times> nat"

text \<open>
  An exception that leaves a handler is answered by the handler of status 500, lines
  364-369; its message is the text of the library's \<^verbatim>\<open>InternalServerError\<close>.
\<close>

definition internal_server_error_text :: string where
  "internal_server_error_text =
     ''500 Internal Server Error: The server encountered an internal error and was unable ''
     @ ''to complete your request. Either the server is overloaded or there is an error ''
     @ ''in the application.''"

definition internal_error :: response where
  "internal_error =
     (JObj [(''error'', JStr ''Internal server error''),
            (''message'', JStr internal_server_error_text)], 500)"

section \<open>The single-sheet endpoint: \<^verbatim>\<open>process_omr\<close>\<close>

record process_request =
  file_field :: "file_storage option"
  json_image :: "string option"

text \<open>
  Lines 112-148: the upload is staged under its sanitised name, a base64 image under the
  fixed name; every other request is answered with status 400. The result is the early
  response, or the store after staging with \<^verbatim>\<open>filename\<close> and \<^verbatim>\<open>filepath\<close>. Staging is
  outside the \<^verbatim>\<open>try\<close> block, so a \<^verbatim>\<open>file.save\<close> that raises is answered with status 500.
  The list \<^verbatim>\<open>allowed_types\<close> comes in the iteration order of a Python set; one order is
  fixed here.
\<close>

definition stage_request ::
  "('p, 'a) libs \<Rightarrow> filesystem \<Rightarrow> process_request
     \<Rightarrow> response + (filesystem \<times> string \<times> string)" where
  "stage_request L fs req =
     (case file_field req of
        Some file \<Rightarrow>
          (if filename file = [] then Inl (JObj [(''error'', JStr ''No file selected'')], 400)
           else if \<not> allowed_file (filename file)
           then Inl (JObj [(''error'', JStr ''Invalid file type''),
                           (''allowed_types'',
                            JList (map JStr [''png'', ''jpg'', ''jpeg'', ''bmp'', ''tiff'']))], 400)
           else (let fname = secure_filename L (filename file);
                     filepath = os_path_join UPLOAD_FOLDER fname
                 in (case file_save L fs filepath (stream file) of
                       Inl e \<Rightarrow> Inl internal_error
                     | Inr fs' \<Rightarrow> Inr (fs', fname, filepath))))
      | None \<Rightarrow>
          (case json_image req of
             Some base64_image \<Rightarrow>
               (case decode_base64_image L base64_image of
                  None \<Rightarrow> Inl (JObj [(''error'', JStr ''Invalid base64 image'')], 400)
                | Some image_array \<Rightarrow>
                    (let fname = ''temp_image.jpg'';
                         filepath = os_path_join UPLOAD_FOLDER fname
                     in Inr (cv2_imwrite L fs filepath image_array, fname, filepath)))
           | None \<Rightarrow>
               Inl (JObj [(''error'', JStr ''No image provided''),
                          (''help'',
                           JStr (''Send image as multipart/form-data with '' @ [CHR 0x22]
                                 @ ''file'' @ [CHR 0x22] @ '' field or as JSON with ''
                                 @ [CHR 0x22] @ ''image'' @ [CHR 0x22]
                                 @ '' (base64) field''))],
                    400)))"

text \<open>
  The \<^verbatim>\<open>except\<close> branch of lines 170-178. A clean-up that raises here leaves the handler.
\<close>

definition process_failed ::
  "('p, 'a) libs \<Rightarrow> filesystem \<Rightarrow> heap \<Rightarrow> string \<Rightarrow> string
     \<Rightarrow> filesystem \<times> heap \<times> response" where
  "process_failed L fs hp filepath e =
     (case clean_up L fs filepath of
        Inl e' \<Rightarrow> (fs, hp, internal_error)
      | Inr fs' \<Rightarrow>
          (fs', hp,
           (JObj [(''error'', JStr e), (''processing_status'', JStr ''failed'')], 500)))"

text \<open>
  Lines 150-178: the \<^verbatim>\<open>try\<close> block around the recognizer. An exception of the
  recognizer, of the clean-up and the \<^verbatim>\<open>TypeError\<close> of \<^verbatim>\<open>len\<close> all reach the \<^verbatim>\<open>except\<close>
  branch. The metadata is written into the recognizer's dictionary.
\<close>

definition recognize_staged ::
  "('p, 'a) libs \<Rightarrow> recognizer \<Rightarrow> filesystem \<Rightarrow> heap \<Rightarrow> string \<Rightarrow> string
     \<Rightarrow> filesystem \<times> heap \<times> response" where
  "recognize_staged L proc fs hp fname filepath =
     (case proc fs hp filepath of
        (Raises e, hp1) \<Rightarrow> process_failed L fs hp1 filepath e
      | (Returns result, hp1) \<Rightarrow>
          (case clean_up L fs filepath of
             Inl e \<Rightarrow> process_failed L fs hp1 filepath e
           | Inr fs' \<Rightarrow>
               (case map_of (hp1 result) ''error'' of
                  Some err \<Rightarrow> (fs', hp1, (JObj [(''error'', err)], 500))
                | None \<Rightarrow>
                    (case py_len (case map_of (hp1 result) ''answers'' of
                                    None \<Rightarrow> JObj []
                                  | Some a \<Rightarrow> a) of
                       Inl e \<Rightarrow> process_failed L fs' hp1 filepath e
                     | Inr n \<Rightarrow>
                         (let hp2 = hp1(result :=
                                dict_set (hp1 result) ''metadata''
                                  (JObj [(''filename'', JStr fname),
                                         (''questions_detected'', JInt (int n)),
                                         (''processing_status'', JStr ''success'')]))
                          in (fs', hp2, (JObj (hp2 result), 200)))))))"

text \<open>\<^verbatim>\<open>process_omr\<close>, lines 93-178: the availability check comes first.\<close>

definition process_omr ::
  "('p, 'a) libs \<Rightarrow> recognizer option \<Rightarrow> filesystem \<Rightarrow> heap \<Rightarrow> process_request
     \<Rightarrow> filesystem \<times> heap \<times> response" where
  "process_omr L processor fs hp req =
     (case processor of
        None \<Rightarrow>
          (fs, hp,
           (JObj [(''error'', JStr ''Model not loaded''),
                  (''message'',
                   JStr ''OMR processor is not available. Please check server logs.'')],
            503))
      | Some proc \<Rightarrow>
          (case stage_request L fs req of
             Inl resp \<Rightarrow> (fs, hp, resp)
           | Inr (fs', fname, filepath) \<Rightarrow> recognize_staged L proc fs' hp fname filepath))"

section \<open>The batch endpoint: \<^verbatim>\<open>batch_process\<close>\<close>

definition error_entry :: "string \<Rightarrow> string \<Rightarrow> dict" where
  "error_entry fname e =
     [(''filename'', JStr fname), (''status'', JStr ''error''), (''error'', JStr e)]"

text \<open>
  Calling a method of \<^verbatim>\<open>None\<close> raises \<^verbatim>\<open>AttributeError\<close> with this message.
\<close>

definition none_has_no_process_omr :: string where
  "none_has_no_process_omr =
     [CHR 0x27] @ ''NoneType'' @ [CHR 0x27] @ '' object has no attribute ''
       @ [CHR 0x27] @ ''process_omr'' @ [CHR 0x27]"

text \<open>
  An element of the \<^verbatim>\<open>results\<close> list is the recognizer's dictionary object or an error
  dictionary the loop has just built, which nothing else refers to.
\<close>

datatype entry = Obj nat | Fresh dict

fun render :: "heap \<Rightarrow> entry \<Rightarrow> dict" where
  "render hp (Obj r) = hp r"
| "render hp (Fresh d) = d"

text \<open>
  One turn of the loop of lines 203-233, on the folder, the object store and the
  \<^verbatim>\<open>results\<close> list. Inside the \<^verbatim>\<open>try\<close> the file is saved, the recognizer is called, its
  dictionary is written to and appended, and only then the clean-up runs; every exception
  raised on the way reaches the \<^verbatim>\<open>except\<close> branch, which appends an error entry and does
  nothing else.
\<close>

definition batch_item ::
  "('p, 'a) libs \<Rightarrow> recognizer option \<Rightarrow> file_storage
     \<Rightarrow> filesystem \<times> heap \<times> entry list \<Rightarrow> filesystem \<times> heap \<times> entry list" where
  "batch_item L processor file st =
     (case st of (fs, hp, results) \<Rightarrow>
        if filename file = [] \<or> \<not> allowed_file (filename file)
        then (fs, hp, results @ [Fresh (error_entry (filename file) ''Invalid file'')])
        else (let fname = secure_filename L (filename file);
                  filepath = os_path_join UPLOAD_FOLDER fname
              in (case file_save L fs filepath (stream file) of
                    Inl e \<Rightarrow> (fs, hp, results @ [Fresh (error_entry (filename file) e)])
                  | Inr fs' \<Rightarrow>
                      (case processor of
                         None \<Rightarrow>
                           (fs', hp,
                            results @ [Fresh (error_entry (filename file)
                                                none_has_no_process_omr)])
                       | Some proc \<Rightarrow>
                           (case proc fs' hp filepath of
                              (Raises e, hp1) \<Rightarrow>
                                (fs', hp1, results @ [Fresh (error_entry (filename file) e)])
                            | (Returns result, hp1) \<Rightarrow>
                                (let hp2 = hp1(result :=
                                       dict_set (dict_set (hp1 result) ''filename'' (JStr fname))
                                         ''status'' (JStr ''success''));
                                     results' = results @ [Obj result]
                                 in (case clean_up L fs' filepath of
                                       Inl e \<Rightarrow>
                                         (fs', hp2,
                                          results' @ [Fresh (error_entry (filename file) e)])
                                     | Inr fs'' \<Rightarrow> (fs'', hp2, results'))))))))"

fun batch_loop ::
  "('p, 'a) libs \<Rightarrow> recognizer option \<Rightarrow> file_storage list
     \<Rightarrow> filesystem \<times> heap \<times> entry list \<Rightarrow> filesystem \<times> heap \<times> entry list" where
  "batch_loop L processor [] st = st"
| "batch_loop L processor (file # files) st =
     batch_loop L processor files (batch_item L processor file st)"

text \<open>\<^verbatim>\<open>r.get('status') == s\<close>.\<close>

definition has_status :: "string \<Rightarrow> dict \<Rightarrow> bool" where
  "has_status s r = (map_of r ''status'' = Some (JStr s))"

text \<open>
  \<^verbatim>\<open>batch_process\<close>, lines 182-240. The request is the list under \<^verbatim>\<open>files[]\<close>, or
  \<open>None\<close> when the field is missing. The counters and the body are computed from the
  \<^verbatim>\<open>results\<close> list as the objects in it are when the loop has ended.
\<close>

definition batch_process ::
  "('p, 'a) libs \<Rightarrow> recognizer option \<Rightarrow> filesystem \<Rightarrow> heap \<Rightarrow> file_storage list option
     \<Rightarrow> filesystem \<times> heap \<times> response" where
  "batch_process L processor fs hp req =
     (case req of
        None \<Rightarrow> (fs, hp, (JObj [(''error'', JStr ''No files provided'')], 400))
      | Some files \<Rightarrow>
          if files = [] then (fs, hp, (JObj [(''error'', JStr ''No files selected'')], 400))
          else (case batch_loop L processor files (fs, hp, []) of
                  (fs', hp', entries) \<Rightarrow>
                    (let results = map (render hp') entries
                     in (fs', hp',
                         (JObj [(''total'', JInt (int (length files))),
                                (''processed'',
                                 JInt (int (length (filter (has_status ''success'') results)))),
                                (''failed'',
                                 JInt (int (length (filter (has_status ''error'') results)))),
                                (''results'', JList (map JObj results))],
                          200)))))"

section \<open>Notions used in the statements\<close>

text \<open>The row the loop appends for one question of the key.\<close>

definition row_of :: "'q answers \<Rightarrow> 'q answers \<Rightarrow> 'q \<Rightarrow> 'q comparison_row" where
  "row_of det akey q =
     \<lparr>question = q, detected = dict_get det q, correct = dict_get akey q,
      is_correct = py_eq (dict_get det q) (dict_get akey q)\<rparr>"

text \<open>
  The value of \<^verbatim>\<open>score_percentage\<close> after line 291: the float \<^verbatim>\<open>correct / total * 100\<close>,
  or 0 for an empty key.
\<close>

definition unrounded :: "nat \<Rightarrow> nat \<Rightarrow> real" where
  "unrounded c t = (if t > 0 then py_float (py_float (real c / real t) * 100) else 0)"

section \<open>Inputs of the worked examples\<close>

text \<open>
  The library functions on the inputs below: \<^verbatim>\<open>secure_filename\<close> returns the names
  \<^verbatim>\<open>a.png\<close> and \<^verbatim>\<open>b.png\<close> as they are; the decoders are not reached; the file system does
  not fault. In \<open>locked_libs\<close> every \<^verbatim>\<open>os.remove\<close> raises \<^verbatim>\<open>PermissionError\<close>.
\<close>

definition plain_libs :: "(unit, unit) libs" where
  "plain_libs =
     \<lparr>secure_filename = (\<lambda>name. name), b64decode = (\<lambda>s. None), image_open = (\<lambda>b. None),
      cvt_color = (\<lambda>p. None), imencode = (\<lambda>a. []),
      save_raises = (\<lambda>fs path. None), imwrite_fails = (\<lambda>fs path. False),
      remove_raises = (\<lambda>fs path. None)\<rparr>"

definition permission_denied :: "string \<Rightarrow> string" where
  "permission_denied path =
     ''[Errno 13] Permission denied: '' @ [CHR 0x27] @ path @ [CHR 0x27]"

definition locked_libs :: "(unit, unit) libs" where
  "locked_libs = plain_libs\<lparr>remove_raises := (\<lambda>fs path. Some (permission_denied path))\<rparr>"

definition sheet :: file_storage where
  "sheet = \<lparr>filename = ''a.png'', stream = [137, 80, 78, 71]\<rparr>"

definition second_sheet :: file_storage where
  "second_sheet = \<lparr>filename = ''b.png'', stream = [137, 80, 78, 72]\<rparr>"

definition text_file :: file_storage where
  "text_file = \<lparr>filename = ''notes.txt'', stream = [104, 105]\<rparr>"

text \<open>The object store before a request: no object holds a key.\<close>

definition no_objects :: heap where
  "no_objects = (\<lambda>r. [])"

text \<open>
  Three recognizers: one that reads every sheet, one that reports a domain error the way
  \<^verbatim>\<open>process_omr\<close> expects it (a dictionary with the key \<^verbatim>\<open>error\<close>), one that raises. The
  first two keep one dictionary object, at address 0, which they fill and return on
  every call.
\<close>

definition reads_sheet :: recognizer where
  "reads_sheet fs hp path =
     (Returns 0, hp(0 := [(''answers'', JObj [(''1'', JStr ''A'')])]))"

definition reports_error :: recognizer where
  "reports_error fs hp path =
     (Returns 0, hp(0 := [(''error'', JStr ''Could not read image'')]))"

definition crashes :: recognizer where
  "crashes fs hp path = (Raises ''corrupt image'', hp)"

section \<open>Properties of the float arithmetic\<close>

lemma bit_length_upper: "n < 2 ^ bit_length n"
proof (induction n rule: bit_length.induct)
  case (1 n)
  show ?case
  proof (cases "n = 0")
    case True
    then show ?thesis by simp
  next
    case False
    with 1 have "n div 2 < 2 ^ bit_length (n div 2)"
      by simp
    then have "n < 2 * 2 ^ bit_length (n div 2)"
      by linarith
    with False show ?thesis
      by simp
  qed
qed

lemma bit_length_lower: "0 < n \<Longrightarrow> 2 ^ (bit_length n - 1) \<le> n"
proof (induction n rule: bit_length.induct)
  case (1 n)
  from "1.prems" have n: "n \<noteq> 0"
    by simp
  show ?case
  proof (cases "n div 2 = 0")
    case True
    with n show ?thesis
      by simp
  next
    case False
    with 1 n have "2 ^ (bit_length (n div 2) - 1) \<le> n div 2"
      by simp
    moreover from False have "bit_length (n div 2) = Suc (bit_length (n div 2) - 1)"
      by simp
    ultimately have "2 ^ bit_length (n div 2) \<le> 2 * (n div 2)"
      by (metis mult_le_mono2 power_Suc)
    then have "2 ^ bit_length (n div 2) \<le> n"
      by linarith
    with n show ?thesis
      by simp
  qed
qed

lemma round_half_even_nearest:
  "\<bar>y - of_int (round_half_even y)\<bar> \<le> 1 / 2 \<and>
   (\<bar>y - of_int (round_half_even y)\<bar> < 1 / 2 \<or> even (round_half_even y))"
proof -
  define f where "f = \<lfloor>y\<rfloor>"
  define d where "d = y - of_int f"
  have d: "0 \<le> d" "d < 1"
    unfolding d_def f_def by linarith+
  have y: "y = of_int f + d"
    by (simp add: d_def)
  have rhe: "round_half_even y =
      (if d < 1 / 2 then f else if 1 / 2 < d then f + 1 else if even f then f else f + 1)"
    by (simp only: round_half_even_def Let_def f_def d_def)
  consider "d < 1 / 2" | "1 / 2 < d" | "d = 1 / 2" "even f" | "d = 1 / 2" "odd f"
    by fastforce
  then show ?thesis
  proof cases
    case 1
    then have "round_half_even y = f"
      by (simp add: rhe)
    with 1 d show ?thesis
      by (simp add: y)
  next
    case 2
    then have "round_half_even y = f + 1"
      by (simp add: rhe)
    with 2 d show ?thesis
      by (simp add: y)
  next
    case 3
    then have "round_half_even y = f"
      by (simp add: rhe)
    with 3 show ?thesis
      by (simp add: y)
  next
    case 4
    then have "round_half_even y = f + 1"
      by (simp add: rhe)
    with 4 show ?thesis
      by (simp add: y)
  qed
qed

lemma py_float_1: "py_float 1 = 1"
  by (simp add: py_float_def binade_def round_half_even_def Let_def)

lemma py_float_100: "py_float 100 = 100"
  by (simp add: py_float_def binade_def round_half_even_def Let_def)

lemma py_round_0: "py_round 0 2 = 0"
  by (simp add: py_round_def py_float_def round_half_even_def)

lemma py_round_100: "py_round 100 2 = 100"
  by (simp add: py_round_def py_float_def binade_def round_half_even_def Let_def)

lemma unrounded_23_of_160:
  "py_float (py_float (23 / 160) * 100) = 8092405580431359 / 2 ^ 49"
  by (simp add: py_float_def binade_def round_half_even_def Let_def)

lemma rounded_23_of_160: "py_round (8092405580431359 / 2 ^ 49) 2 = 8089590830664253 / 2 ^ 49"
  by (simp add: py_round_def py_float_def binade_def round_half_even_def Let_def)

lemma unrounded_1_of_3: "py_float (py_float (1 / 3) * 100) = 2345624805922133 / 2 ^ 46"
  by (simp add: py_float_def binade_def round_half_even_def Let_def)

lemma rounded_1_of_3: "py_round (2345624805922133 / 2 ^ 46) 2 = 2345390243441541 / 2 ^ 46"
  by (simp add: py_round_def py_float_def binade_def round_half_even_def Let_def)

lemma unrounded_89996_of_100000:
  "py_float (py_float (89996 / 100000) * 100) = 6332905501013049 / 2 ^ 46"
  by (simp add: py_float_def binade_def round_half_even_def Let_def)

lemma rounded_89996_of_100000: "py_round (6332905501013049 / 2 ^ 46) 2 = 90"
  by (simp add: py_round_def py_float_def binade_def round_half_even_def Let_def)


lemma binade_bounds:
  assumes "0 < x"
  shows "2 powi binade x \<le> x \<and> x < 2 powi (binade x + 1)"
proof (cases "1 \<le> x")
  case True
  define n where "n = nat \<lfloor>x\<rfloor>"
  from True have n: "0 < n" "real n \<le> x" "x < real n + 1"
    unfolding n_def by (simp, linarith, linarith)
  have b: "binade x = int (bit_length n) - 1"
    using True by (simp add: binade_def n_def)
  from n(1) have pos: "0 < bit_length n"
    by simp
  have lo: "(2::real) ^ (bit_length n - 1) \<le> real n"
    using bit_length_lower [OF n(1)] by (metis of_nat_le_iff of_nat_numeral of_nat_power)
  have "real n + 1 \<le> 2 ^ bit_length n"
    using bit_length_upper [of n]
    by (metis Suc_leI of_nat_Suc of_nat_le_iff of_nat_numeral of_nat_power add.commute
        of_nat_1 of_nat_add)
  with n have hi: "x < 2 ^ bit_length n"
    by linarith
  have e1: "(2::real) powi (int (bit_length n) - 1) = 2 ^ (bit_length n - 1)"
    using pos by (simp add: power_int_def of_nat_diff nat_diff_distrib)
  have e2: "(2::real) powi (int (bit_length n) - 1 + 1) = 2 ^ bit_length n"
    by simp
  show ?thesis
    unfolding b e1 e2 using lo n hi by linarith
next
  case False
  define y where "y = 1 / x"
  define m where "m = nat (\<lceil>y\<rceil> - 1)"
  define k where "k = bit_length m"
  from False assms have y: "1 < y"
    by (simp add: y_def)
  then have c: "2 \<le> \<lceil>y\<rceil>"
    by linarith
  then have m: "0 < m" "real m < y" "y \<le> real m + 1"
    unfolding m_def by (simp, linarith, linarith)
  have b: "binade x = - int k"
    using False by (simp add: binade_def k_def m_def y_def)
  from m(1) have pos: "0 < k"
    by (simp add: k_def)
  have lo: "(2::real) ^ (k - 1) \<le> real m"
    using bit_length_lower [OF m(1)] unfolding k_def
    by (metis of_nat_le_iff of_nat_numeral of_nat_power)
  have up: "real m + 1 \<le> 2 ^ k"
    using bit_length_upper [of m] unfolding k_def
    by (metis Suc_leI of_nat_Suc of_nat_le_iff of_nat_numeral of_nat_power add.commute
        of_nat_1 of_nat_add)
  have x: "x = 1 / y"
    by (simp add: y_def)
  have ylo: "2 ^ (k - 1) < y" and yhi: "y \<le> 2 ^ k"
    using lo up m by linarith+
  have e1: "(2::real) powi (- int k) = 1 / 2 ^ k"
    by (simp add: power_int_minus field_simps)
  have e2: "(2::real) powi (- int k + 1) = 1 / 2 ^ (k - 1)"
  proof -
    have eq: "- int k + 1 = - int (k - 1)"
      using pos by simp
    have "(2::real) powi (- int (k - 1)) = 1 / 2 ^ (k - 1)"
      by (simp add: power_int_minus field_simps)
    then show ?thesis
      by (simp only: eq)
  qed
  have "1 / 2 ^ k \<le> 1 / y"
    using yhi y by (intro divide_left_mono) simp_all
  moreover have "1 / y < 1 / 2 ^ (k - 1)"
  proof (rule divide_strict_left_mono [OF ylo])
    show "(0::real) < 1"
      by simp
    from y show "0 < y * 2 ^ (k - 1)"
      by simp
  qed
  ultimately have "1 / 2 ^ k \<le> x \<and> x < 1 / 2 ^ (k - 1)"
    by (simp add: x)
  then show ?thesis
    unfolding b e1 e2 .
qed

text \<open>
  \<open>py_float x\<close> is a multiple of the spacing of the doubles around \<open>x\<close> and lies within
  half that spacing of \<open>x\<close>.
\<close>

lemma py_float_nearest:
  assumes "x \<noteq> 0"
  shows "\<exists>m. py_float x = of_int m * 2 powi (max (binade \<bar>x\<bar> - 52) (- 1074)) \<and>
             \<bar>py_float x - x\<bar> \<le> 2 powi (max (binade \<bar>x\<bar> - 52) (- 1074)) / 2"
proof -
  define q :: real where "q = 2 powi (max (binade \<bar>x\<bar> - 52) (- 1074))"
  define m where "m = round_half_even (x / q)"
  have q: "0 < q"
    by (simp add: q_def)
  have fl: "py_float x = of_int m * q"
    using assms by (simp add: py_float_def Let_def q_def m_def)
  from round_half_even_nearest [of "x / q"] have "\<bar>x / q - of_int m\<bar> \<le> 1 / 2"
    by (simp add: m_def)
  then have "q * \<bar>x / q - of_int m\<bar> \<le> q * (1 / 2)"
    using q by (intro mult_left_mono) simp_all
  moreover have "q * \<bar>x / q - of_int m\<bar> = \<bar>of_int m * q - x\<bar>"
  proof -
    have "q * \<bar>x / q - of_int m\<bar> = \<bar>q * (x / q - of_int m)\<bar>"
      using q by (simp add: abs_mult)
    also have "q * (x / q - of_int m) = x - of_int m * q"
      using q by (simp add: field_simps)
    finally show ?thesis
      by (simp add: abs_minus_commute)
  qed
  ultimately have "\<bar>py_float x - x\<bar> \<le> q / 2"
    by (simp add: fl)
  with fl show ?thesis
    unfolding q_def by blast
qed

section \<open>Properties of the scoring endpoint\<close>

lemma py_eq_refl: "a \<noteq> PyNaN \<Longrightarrow> py_eq a a"
  by (cases a) (simp_all add: py_eq_def)

lemma py_eq_None_left: "py_eq PyNone b \<longleftrightarrow> b = PyNone"
  by (cases b) (auto simp: py_eq_def)

lemma compare_answers_closed:
  "set qs \<subseteq> fst ` set akey \<Longrightarrow>
   compare_answers det akey qs (rows, c, t) =
     Inr (rows @ map (row_of det akey) qs,
          c + length (filter (\<lambda>q. is_correct (row_of det akey q)) qs),
          t + length qs)"
proof (induction qs arbitrary: rows c t)
  case Nil
  then show ?case by simp
next
  case (Cons q qs)
  from Cons.prems have "q \<in> fst ` set akey" by simp
  then obtain v where v: "map_of akey q = Some v"
    by (metis domD dom_map_of_conv_image_fst)
  from Cons.prems have sub: "set qs \<subseteq> fst ` set akey" by simp
  show ?case
    using v Cons.IH [OF sub]
    by (simp add: Let_def row_of_def dict_get_def)
qed

lemma score_percentage_value: "score_percentage c t = Inr (unrounded c t)"
  by (simp add: score_percentage_def py_truediv_def unrounded_def)

lemma score_answers_closed:
  "score_answers det akey =
     Inr \<lparr>score = length (filter (\<lambda>q. is_correct (row_of det akey q)) (map fst akey)),
          total = length akey,
          percentage =
            py_round (unrounded
                        (length (filter (\<lambda>q. is_correct (row_of det akey q)) (map fst akey)))
                        (length akey)) 2,
          grade =
            get_grade (unrounded
                         (length (filter (\<lambda>q. is_correct (row_of det akey q)) (map fst akey)))
                         (length akey)),
          comparison = map (row_of det akey) (map fst akey)\<rparr>"
proof -
  have "set (map fst akey) \<subseteq> fst ` set akey" by simp
  from compare_answers_closed [OF this, of det "[]" 0 0]
  show ?thesis
    by (simp add: score_answers_def score_percentage_value)
qed

lemma validate_answers_scores:
  "validate_answers (Json \<lparr>detected_answers = Some det, answer_key = Some akey\<rparr>) =
     (case score_answers det akey of Inl e \<Rightarrow> Inl e | Inr r \<Rightarrow> Inr (Report r, 200))"
  by (simp add: validate_answers_def)

lemma validate_answers_returns: "\<exists>resp. validate_answers req = Inr resp"
  by (cases req)
    (auto simp: validate_answers_def score_answers_closed split: option.splits)

lemma unrounded_all_correct: "0 < n \<Longrightarrow> unrounded n n = 100"
  by (simp add: unrounded_def py_float_1 py_float_100)

lemma map_of_const_upt:
  "map_of (map (\<lambda>i. (i, v)) [0..<n]) i = (if i < n then Some v else None)"
  by (induction n) (auto simp: map_add_def split: option.splits)

lemma filter_less_upt: "m \<le> n \<Longrightarrow> filter (\<lambda>i. i < m) [0..<n] = [0..<m]"
  by (induction n) (auto simp: le_Suc_eq)

lemma count_prefix_key:
  assumes "m \<le> n"
  shows "length (filter (\<lambda>q. is_correct (row_of (map (\<lambda>i. (i, PyStr ''A'')) [0..<m])
                                             (map (\<lambda>i. (i, PyStr ''A'')) [0..<n]) q))
                   (map fst (map (\<lambda>i. (i, PyStr ''A'')) [0..<n]))) = m"
proof -
  have keys: "map fst (map (\<lambda>i. (i, PyStr ''A'')) [0..<n]) = [0..<n]"
    by (simp add: o_def)
  have "filter (\<lambda>q. is_correct (row_of (map (\<lambda>i. (i, PyStr ''A'')) [0..<m])
                                      (map (\<lambda>i. (i, PyStr ''A'')) [0..<n]) q)) [0..<n]
        = filter (\<lambda>i. i < m) [0..<n]"
    by (rule filter_cong) (auto simp: row_of_def dict_get_def map_of_const_upt py_eq_def)
  with assms show ?thesis
    unfolding keys by (simp add: filter_less_upt)
qed

text \<open>
  A key of \<open>n\<close> questions answered \<^verbatim>\<open>A\<close> and a detected map that has the first \<open>m\<close> of them.
\<close>

lemma score_prefix_key:
  assumes "m \<le> n"
  shows "score_answers (map (\<lambda>i. (i, PyStr ''A'')) [0..<m]) (map (\<lambda>i. (i, PyStr ''A'')) [0..<n]) =
     Inr \<lparr>score = m, total = n, percentage = py_round (unrounded m n) 2,
          grade = get_grade (unrounded m n),
          comparison = map (row_of (map (\<lambda>i. (i, PyStr ''A'')) [0..<m])
                                   (map (\<lambda>i. (i, PyStr ''A'')) [0..<n]))
                           (map fst (map (\<lambda>i. (i, PyStr ''A'')) [0..<n]))\<rparr>"
proof -
  have len: "length (map (\<lambda>i. (i, PyStr ''A'')) [0..<n]) = n"
    by simp
  show ?thesis
    unfolding score_answers_closed count_prefix_key [OF assms] len ..
qed

lemma row_of_cong:
  "map_of det' q = map_of det q \<Longrightarrow> row_of det' akey q = row_of det akey q"
  by (simp add: row_of_def dict_get_def)

lemma dict_get_key: "(q, v) \<in> set akey \<Longrightarrow> \<exists>w. map_of akey q = Some w \<and> dict_get akey q = w"
  by (cases "map_of akey q") (auto simp: dict_get_def map_of_eq_None_iff image_iff)

lemma dict_get_in_values: "q \<in> fst ` set akey \<Longrightarrow> dict_get akey q \<in> snd ` set akey"
proof -
  assume "q \<in> fst ` set akey"
  then obtain v where "map_of akey q = Some v"
    by (metis domD dom_map_of_conv_image_fst)
  then show ?thesis
    by (auto simp: dict_get_def dest: map_of_SomeD intro: rev_image_eqI)
qed

text \<open>
  C4. The letter grade follows the inclusive lower bounds 90, 80, 70, 60 and 50, the first
  bound that holds deciding: each grade is given on exactly its band. The eleven boundary
  percentages of the specification get the grades it lists.
\<close>

theorem get_grade_thresholds:
  "(get_grade p = ''A+'' \<longleftrightarrow> 90 \<le> p) \<and>
   (get_grade p = ''A'' \<longleftrightarrow> 80 \<le> p \<and> p < 90) \<and>
   (get_grade p = ''B'' \<longleftrightarrow> 70 \<le> p \<and> p < 80) \<and>
   (get_grade p = ''C'' \<longleftrightarrow> 60 \<le> p \<and> p < 70) \<and>
   (get_grade p = ''D'' \<longleftrightarrow> 50 \<le> p \<and> p < 60) \<and>
   (get_grade p = ''F'' \<longleftrightarrow> p < 50) \<and>
   map get_grade
     [90, 8999 / 100, 80, 7999 / 100, 70, 6999 / 100, 60, 5999 / 100, 50, 4999 / 100, 0]
     = [''A+'', ''A'', ''A'', ''B'', ''B'', ''C'', ''C'', ''D'', ''D'', ''F'', ''F'']"
  by (simp add: get_grade_def)

text \<open>
  C5. Scoring never faults, on a division by zero or otherwise: it returns a report whose
  total is the number of key entries and whose score counts the correct rows. For a
  positive total the percentage is \<^verbatim>\<open>round(score / total * 100, 2)\<close> in float arithmetic:
  the quotient is rounded to a double, so is its product with 100, and the result is
  rounded to two decimals. For the total zero the percentage is 0, as it is for two
  empty maps. The rounding to two decimals gives the double of a number of hundredths
  nearest to its argument, an even number of hundredths on a tie. With 23 correct answers
  out of 160 the percentage is the double written \<^verbatim>\<open>14.37\<close>, although the exact quotient
  14.375 would round to 14.38: the float product is \<^verbatim>\<open>14.374999999999998\<close>.
\<close>

theorem score_percentage_defined:
  "(\<exists>r. score_answers det akey = Inr r \<and>
        total r = length akey \<and>
        score r = length (filter is_correct (comparison r)) \<and>
        percentage r =
          (if total r > 0
           then py_round (py_float (py_float (real (score r) / real (total r)) * 100)) 2
           else 0)) \<and>
   (\<exists>r. score_answers [] ([] :: 'q answers) = Inr r \<and> total r = 0 \<and> percentage r = 0) \<and>
   (\<exists>d. py_round x 2 = py_float (of_int d / 100) \<and>
        \<bar>x * 100 - of_int d\<bar> \<le> 1 / 2 \<and>
        (\<bar>x * 100 - of_int d\<bar> < 1 / 2 \<or> even d)) \<and>
   (\<exists>(d :: nat answers) k r.
        score_answers d k = Inr r \<and> score r = 23 \<and> total r = 160 \<and>
        percentage r = 8089590830664253 / 2 ^ 49 \<and>
        \<bar>percentage r - 1437 / 100\<bar> < 1 / 10 ^ 15)"
proof (intro conjI)
  show "\<exists>r. score_answers det akey = Inr r \<and>
        total r = length akey \<and>
        score r = length (filter is_correct (comparison r)) \<and>
        percentage r =
          (if total r > 0
           then py_round (py_float (py_float (real (score r) / real (total r)) * 100)) 2
           else 0)"
    by (simp add: score_answers_closed unrounded_def py_round_0 filter_map o_def)
  show "\<exists>r. score_answers [] ([] :: 'q answers) = Inr r \<and> total r = 0 \<and> percentage r = 0"
    by (simp add: score_answers_closed unrounded_def py_round_0)
  show "\<exists>d. py_round x 2 = py_float (of_int d / 100) \<and>
        \<bar>x * 100 - of_int d\<bar> \<le> 1 / 2 \<and>
        (\<bar>x * 100 - of_int d\<bar> < 1 / 2 \<or> even d)"
    using round_half_even_nearest [of "x * 100"]
    by (intro exI [of _ "round_half_even (x * 100)"]) (simp add: py_round_def)
  let ?d = "map (\<lambda>i. (i, PyStr ''A'')) [0..<23]"
  let ?k = "map (\<lambda>i. (i, PyStr ''A'')) [0..<160]"
  let ?r = "\<lparr>score = 23, total = 160, percentage = 8089590830664253 / 2 ^ 49, grade = ''F'',
            comparison = map (row_of ?d ?k) (map fst ?k)\<rparr>"
  have u: "unrounded 23 160 = 8092405580431359 / 2 ^ 49"
    using unrounded_23_of_160 by (simp add: unrounded_def)
  have g: "get_grade (8092405580431359 / 2 ^ 49) = ''F''"
    by (simp add: get_grade_def)
  have "(23::nat) \<le> 160"
    by simp
  from score_prefix_key [OF this] have eq: "score_answers ?d ?k = Inr ?r"
    unfolding u rounded_23_of_160 g .
  have "score_answers ?d ?k = Inr ?r \<and> score ?r = 23 \<and> total ?r = 160 \<and>
        percentage ?r = 8089590830664253 / 2 ^ 49 \<and>
        \<bar>percentage ?r - 1437 / 100\<bar> < 1 / 10 ^ 15"
    using eq by simp
  then show "\<exists>(d :: nat answers) k r.
        score_answers d k = Inr r \<and> score r = 23 \<and> total r = 160 \<and>
        percentage r = 8089590830664253 / 2 ^ 49 \<and>
        \<bar>percentage r - 1437 / 100\<bar> < 1 / 10 ^ 15"
    by - (rule exI [of _ ?d], rule exI [of _ ?k], rule exI [of _ ?r], assumption)
qed

text \<open>
  C6, as the code has it. Scoring a key that is not empty and holds no \<^verbatim>\<open>NaN\<close> answer
  against itself gives the percentage 100 and the grade A+.
\<close>

theorem score_round_trip:
  "akey \<noteq> [] \<Longrightarrow> PyNaN \<notin> snd ` set akey \<Longrightarrow>
   \<exists>r. score_answers akey akey = Inr r \<and> percentage r = 100 \<and> grade r = ''A+''"
proof -
  assume ne: "akey \<noteq> []" and nan: "PyNaN \<notin> snd ` set akey"
  have "is_correct (row_of akey akey q)" if "q \<in> set (map fst akey)" for q
  proof -
    from that have "dict_get akey q \<in> snd ` set akey"
      by (intro dict_get_in_values) simp
    with nan have "dict_get akey q \<noteq> PyNaN"
      by metis
    then show ?thesis
      by (simp add: row_of_def py_eq_refl)
  qed
  then have all: "filter (\<lambda>q. is_correct (row_of akey akey q)) (map fst akey) = map fst akey"
    by (intro filter_True) blast
  from ne have pos: "0 < length akey"
    by simp
  show ?thesis
    unfolding score_answers_closed all
    by (simp add: unrounded_all_correct [OF pos] py_round_100 get_grade_def)
qed

theorem score_round_trip_witness:
  "[(''1'', PyStr ''A''), (''2'', PyStr ''B'')] \<noteq> [] \<and>
   PyNaN \<notin> snd ` set [(''1'', PyStr ''A''), (''2'', PyStr ''B'')] \<and>
   (\<exists>r. score_answers [(''1'', PyStr ''A''), (''2'', PyStr ''B'')]
                       [(''1'', PyStr ''A''), (''2'', PyStr ''B'')] = Inr r \<and>
        percentage r = 100 \<and> grade r = ''A+'')"
proof -
  have ne: "[(''1'', PyStr ''A''), (''2'', PyStr ''B'')] \<noteq> []"
    by simp
  have nan: "PyNaN \<notin> snd ` set [(''1'', PyStr ''A''), (''2'', PyStr ''B'')]"
    by simp
  show ?thesis
    by (rule conjI [OF ne conjI [OF nan score_round_trip [OF ne nan]]])
qed

text \<open>
  The claim as the specification words it fails on a key that holds \<^verbatim>\<open>NaN\<close>, which the
  JSON parser of the endpoint accepts: \<^verbatim>\<open>NaN == NaN\<close> is false, so the key scored against
  itself gets the percentage 0 and the grade F.
\<close>

theorem nan_key_counterexample:
  "score_answers [(''1'', PyNaN)] [(''1'', PyNaN)] =
     Inr \<lparr>score = 0, total = 1, percentage = 0, grade = ''F'',
          comparison = [\<lparr>question = ''1'', detected = PyNaN, correct = PyNaN,
                         is_correct = False\<rparr>]\<rparr>"
  by (simp add: score_answers_def score_percentage_def py_truediv_def dict_get_def py_eq_def
      py_float_def py_round_0 get_grade_def)

text \<open>
  C10. The grade of a report is the grade of the unrounded float \<^verbatim>\<open>score / total * 100\<close>
  (0 for an empty key), not of the reported percentage. There are a detected map and a key
  with 89996 correct answers out of 100000: the report shows the percentage 90 and the
  grade A, although the grade of 90 is A+.
\<close>

theorem grade_from_unrounded:
  "(\<exists>r. score_answers det akey = Inr r \<and>
        grade r =
          get_grade (if total r > 0
                     then py_float (py_float (real (score r) / real (total r)) * 100)
                     else 0)) \<and>
   (\<exists>(d :: nat answers) k r.
        score_answers d k = Inr r \<and> score r = 89996 \<and> total r = 100000 \<and>
        percentage r = 90 \<and> grade r = ''A'' \<and> get_grade (percentage r) = ''A+'')"
proof
  show "\<exists>r. score_answers det akey = Inr r \<and>
        grade r =
          get_grade (if total r > 0
                     then py_float (py_float (real (score r) / real (total r)) * 100)
                     else 0)"
    by (simp add: score_answers_closed unrounded_def)
next
  let ?d = "map (\<lambda>i. (i, PyStr ''A'')) [0..<89996]"
  let ?k = "map (\<lambda>i. (i, PyStr ''A'')) [0..<100000]"
  let ?r = "\<lparr>score = 89996, total = 100000, percentage = 90, grade = ''A'',
               comparison = map (row_of ?d ?k) (map fst ?k)\<rparr>"
  have u: "unrounded 89996 100000 = 6332905501013049 / 2 ^ 46"
    using unrounded_89996_of_100000 by (simp add: unrounded_def)
  have g: "get_grade (6332905501013049 / 2 ^ 46) = ''A''"
    by (simp add: get_grade_def)
  have "(89996::nat) \<le> 100000"
    by simp
  from score_prefix_key [OF this] have eq: "score_answers ?d ?k = Inr ?r"
    unfolding u rounded_89996_of_100000 g .
  have "score_answers ?d ?k = Inr ?r \<and> score ?r = 89996 \<and> total ?r = 100000 \<and>
        percentage ?r = 90 \<and> grade ?r = ''A'' \<and> get_grade (percentage ?r) = ''A+''"
    using eq by (simp add: get_grade_def)
  then show "\<exists>(d :: nat answers) k r.
        score_answers d k = Inr r \<and> score r = 89996 \<and> total r = 100000 \<and>
        percentage r = 90 \<and> grade r = ''A'' \<and> get_grade (percentage r) = ''A+''"
    by - (rule exI [of _ ?d], rule exI [of _ ?k], rule exI [of _ ?r], assumption)
qed

text \<open>
  C3, as the code has it. Scoring never faults. The comparison rows are the questions of
  the key, in the key's order, and the total is the number of key entries. Each row holds
  the key's answer; a question the detected map lacks is reported with the detected value
  \<^verbatim>\<open>None\<close> and is correct exactly when the key's answer for it is \<^verbatim>\<open>None\<close> too, so it is
  incorrect for every key answer that is not null. Entries of the detected map for
  questions outside the key change nothing: two detected maps that agree on the key's
  questions get the same report.
\<close>

theorem score_covers_key:
  "(\<exists>r. score_answers det akey = Inr r \<and>
        map question (comparison r) = map fst akey \<and>
        total r = length akey \<and>
        (\<forall>row \<in> set (comparison r).
            map_of akey (question row) = Some (correct row) \<and>
            (map_of det (question row) = None \<longrightarrow>
               detected row = PyNone \<and> (is_correct row \<longleftrightarrow> correct row = PyNone)))) \<and>
   ((\<forall>q \<in> set (map fst akey). map_of det' q = map_of det q) \<longrightarrow>
      score_answers det' akey = score_answers det akey)"
proof (rule conjI)
  let ?rows = "map (row_of det akey) (map fst akey)"
  have one: "map_of akey (question (row_of det akey q)) = Some (correct (row_of det akey q)) \<and>
             (map_of det (question (row_of det akey q)) = None \<longrightarrow>
                detected (row_of det akey q) = PyNone \<and>
                (is_correct (row_of det akey q) \<longleftrightarrow> correct (row_of det akey q) = PyNone))"
    if "(q, v) \<in> set akey" for q v
  proof -
    from dict_get_key [OF that] obtain w where w: "map_of akey q = Some w" "dict_get akey q = w"
      by blast
    have sel: "question (row_of det akey q) = q" "correct (row_of det akey q) = w"
      "detected (row_of det akey q) = dict_get det q"
      "is_correct (row_of det akey q) = py_eq (dict_get det q) w"
      by (simp_all add: row_of_def w)
    show ?thesis
      unfolding sel by (simp add: w dict_get_def py_eq_None_left)
  qed
  have all: "\<forall>row \<in> set ?rows.
            map_of akey (question row) = Some (correct row) \<and>
            (map_of det (question row) = None \<longrightarrow>
               detected row = PyNone \<and> (is_correct row \<longleftrightarrow> correct row = PyNone))"
  proof
    fix row assume "row \<in> set ?rows"
    then obtain q v where "(q, v) \<in> set akey" "row = row_of det akey q"
      by auto
    then show "map_of akey (question row) = Some (correct row) \<and>
            (map_of det (question row) = None \<longrightarrow>
               detected row = PyNone \<and> (is_correct row \<longleftrightarrow> correct row = PyNone))"
      using one by blast
  qed
  have q: "map question ?rows = map fst akey"
    by (simp add: o_def row_of_def)
  have "\<exists>r. score_answers det akey = Inr r \<and> comparison r = ?rows \<and> total r = length akey"
    by (simp add: score_answers_closed)
  then obtain r where r: "score_answers det akey = Inr r" "comparison r = ?rows"
    "total r = length akey"
    by blast
  show "\<exists>r. score_answers det akey = Inr r \<and>
        map question (comparison r) = map fst akey \<and>
        total r = length akey \<and>
        (\<forall>row \<in> set (comparison r).
            map_of akey (question row) = Some (correct row) \<and>
            (map_of det (question row) = None \<longrightarrow>
               detected row = PyNone \<and> (is_correct row \<longleftrightarrow> correct row = PyNone)))"
  proof (intro exI [of _ r] conjI)
    show "score_answers det akey = Inr r"
      by (rule r(1))
    show "map question (comparison r) = map fst akey"
      unfolding r(2) by (rule q)
    show "total r = length akey"
      by (rule r(3))
    show "\<forall>row \<in> set (comparison r).
            map_of akey (question row) = Some (correct row) \<and>
            (map_of det (question row) = None \<longrightarrow>
               detected row = PyNone \<and> (is_correct row \<longleftrightarrow> correct row = PyNone))"
      unfolding r(2) by (rule all)
  qed
next
  show "(\<forall>q \<in> set (map fst akey). map_of det' q = map_of det q) \<longrightarrow>
      score_answers det' akey = score_answers det akey"
  proof
    assume agree: "\<forall>q \<in> set (map fst akey). map_of det' q = map_of det q"
    have rc: "row_of det' akey q = row_of det akey q" if "q \<in> set (map fst akey)" for q
    proof (rule row_of_cong)
      from agree that show "map_of det' q = map_of det q" ..
    qed
    have m: "map (row_of det' akey) (map fst akey) = map (row_of det akey) (map fst akey)"
      by (rule map_cong [OF refl]) (rule rc)
    have f: "filter (\<lambda>q. is_correct (row_of det' akey q)) (map fst akey)
             = filter (\<lambda>q. is_correct (row_of det akey q)) (map fst akey)"
      by (rule filter_cong [OF refl]) (simp only: rc)
    show "score_answers det' akey = score_answers det akey"
      unfolding score_answers_closed m f ..
  qed
qed

theorem score_covers_key_witness:
  "score_answers [(''1'', PyStr ''A''), (''2'', PyStr ''C''), (''9'', PyStr ''D'')]
                 [(''1'', PyStr ''A''), (''2'', PyStr ''B''), (''3'', PyStr ''C'')]
     = score_answers [(''1'', PyStr ''A''), (''2'', PyStr ''C'')]
                     [(''1'', PyStr ''A''), (''2'', PyStr ''B''), (''3'', PyStr ''C'')] \<and>
   score_answers [(''1'', PyStr ''A''), (''2'', PyStr ''C'')]
                 [(''1'', PyStr ''A''), (''2'', PyStr ''B''), (''3'', PyStr ''C'')]
     = Inr \<lparr>score = 1, total = 3, percentage = 2345390243441541 / 2 ^ 46, grade = ''F'',
            comparison =
              [\<lparr>question = ''1'', detected = PyStr ''A'', correct = PyStr ''A'',
                 is_correct = True\<rparr>,
               \<lparr>question = ''2'', detected = PyStr ''C'', correct = PyStr ''B'',
                 is_correct = False\<rparr>,
               \<lparr>question = ''3'', detected = PyNone, correct = PyStr ''C'',
                 is_correct = False\<rparr>]\<rparr>"
proof (rule conjI)
  let ?d = "[(''1'', PyStr ''A''), (''2'', PyStr ''C'')]"
  let ?d' = "[(''1'', PyStr ''A''), (''2'', PyStr ''C''), (''9'', PyStr ''D'')]"
  let ?k = "[(''1'', PyStr ''A''), (''2'', PyStr ''B''), (''3'', PyStr ''C'')]"
  have agree: "\<forall>q \<in> set (map fst ?k). map_of ?d' q = map_of ?d q"
    by simp
  show "score_answers ?d' ?k = score_answers ?d ?k"
    by (rule mp [OF conjunct2 [OF score_covers_key [of ?d ?k ?d']] agree])
  have u: "py_float (py_float (1 / 3) * 100) = 2345624805922133 / 70368744177664"
    using unrounded_1_of_3 by simp
  have r: "py_round (2345624805922133 / 70368744177664) 2 = 2345390243441541 / 70368744177664"
    using rounded_1_of_3 by simp
  show "score_answers ?d ?k
     = Inr \<lparr>score = 1, total = 3, percentage = 2345390243441541 / 2 ^ 46, grade = ''F'',
            comparison =
              [\<lparr>question = ''1'', detected = PyStr ''A'', correct = PyStr ''A'',
                 is_correct = True\<rparr>,
               \<lparr>question = ''2'', detected = PyStr ''C'', correct = PyStr ''B'',
                 is_correct = False\<rparr>,
               \<lparr>question = ''3'', detected = PyNone, correct = PyStr ''C'',
                 is_correct = False\<rparr>]\<rparr>"
    by (simp add: score_answers_def score_percentage_def py_truediv_def dict_get_def
        py_eq_def u r get_grade_def Let_def)
qed

text \<open>
  The claim as the specification words it fails where the key's answer is null: the
  question is absent from the detected map and is scored as correct.
\<close>

theorem absent_null_key_counterexample:
  "score_answers [] [(''1'', PyNone)] =
     Inr \<lparr>score = 1, total = 1, percentage = 100, grade = ''A+'',
          comparison = [\<lparr>question = ''1'', detected = PyNone, correct = PyNone,
                         is_correct = True\<rparr>]\<rparr>"
  by (simp add: score_answers_def score_percentage_def py_truediv_def dict_get_def py_eq_def
      py_float_1 py_float_100 py_round_100 get_grade_def)


section \<open>Properties of the image decoder\<close>

lemma find_sub_marker_end:
  "sep \<noteq> [] \<Longrightarrow> find_sub sep (header @ sep) = Some (header, []) \<Longrightarrow>
   find_sub sep (header @ sep @ payload) = Some (header, payload)"
proof (induction header)
  case Nil
  then show ?case
    by (cases sep) simp_all
next
  case (Cons a header)
  have len: "length sep \<le> length (a # header @ sep)"
    by simp
  from Cons.prems(2) have ne: "take (length sep) (a # header @ sep) \<noteq> sep"
    by (auto split: if_splits)
  with Cons.prems(2) have rest: "find_sub sep (header @ sep) = Some (header, [])"
    by (auto split: if_splits option.splits)
  have "take (length sep) ((a # header @ sep) @ payload) = take (length sep) (a # header @ sep)"
    using len by (simp only: take_append) simp
  with ne have ne': "take (length sep) (a # header @ sep @ payload) \<noteq> sep"
    by simp
  from Cons.IH [OF Cons.prems(1) rest] ne' show ?case
    by simp
qed

lemma split_pieces_two:
  assumes "sep \<noteq> []" and "find_sub sep s = Some (a, b)" and "find_sub sep b = None"
  shows "split_pieces sep s = [a, b]"
proof -
  have "split_pieces sep b = [b]"
    by (subst split_pieces.simps) (simp add: assms)
  then show ?thesis
    by (subst split_pieces.simps) (simp add: assms)
qed

lemma strip_data_url_bare: "\<not> py_in ''base64,'' payload \<Longrightarrow> strip_data_url payload = Inr payload"
  by (simp add: strip_data_url_def)

lemma strip_data_url_prefixed:
  assumes "\<not> py_in ''base64,'' payload"
    and "find_sub ''base64,'' (header @ ''base64,'') = Some (header, [])"
  shows "strip_data_url (header @ ''base64,'' @ payload) = Inr payload"
proof -
  have cut: "find_sub ''base64,'' (header @ ''base64,'' @ payload) = Some (header, payload)"
    by (rule find_sub_marker_end [OF _ assms(2)]) simp
  from assms(1) have none: "find_sub ''base64,'' payload = None"
    by (cases "find_sub ''base64,'' payload") (simp_all add: py_in_def)
  have pieces: "split_pieces ''base64,'' (header @ ''base64,'' @ payload) = [header, payload]"
    by (rule split_pieces_two [OF _ cut none]) simp
  have marked: "py_in ''base64,'' (header @ ''base64,'' @ payload)"
    unfolding py_in_def cut by simp
  show ?thesis
    unfolding strip_data_url_def if_P [OF marked] py_split_def pieces by simp
qed

lemma no_comma_no_marker:
  "CHR '','' \<notin> set payload \<Longrightarrow> \<not> py_in ''base64,'' payload"
proof -
  assume "CHR '','' \<notin> set payload"
  then have "find_sub ''base64,'' payload = None"
  proof (induction payload)
    case Nil
    then show ?case by simp
  next
    case (Cons c cs)
    have "take (length ''base64,'') (c # cs) \<noteq> ''base64,''"
    proof
      assume eq: "take (length ''base64,'') (c # cs) = ''base64,''"
      have "CHR '','' \<in> set (take (length ''base64,'') (c # cs))"
        unfolding eq by simp
      then have "CHR '','' \<in> set (c # cs)"
        by (rule in_set_takeD)
      with Cons.prems show False
        by simp
    qed
    moreover from Cons have "find_sub ''base64,'' cs = None"
      by simp
    ultimately show ?case
      by (simp del: take_Suc_Cons length_Cons list.size)
  qed
  then show ?thesis
    by (simp add: py_in_def)
qed

lemma header_without_comma:
  "CHR '','' \<notin> set header \<Longrightarrow>
   find_sub ''base64,'' (header @ ''base64,'') = Some (header, [])"
proof (induction header)
  case Nil
  then show ?case by simp
next
  case (Cons a header)
  have "take (length ''base64,'') (a # header @ ''base64,'') \<noteq> ''base64,''"
  proof
    assume eq: "take (length ''base64,'') (a # header @ ''base64,'') = ''base64,''"
    have "take (length ''base64,'') ((a # header @ ''base64'') @ '','')
          = take (length ''base64,'') (a # header @ ''base64'')"
      by (simp only: take_append) simp
    then have "take (length ''base64,'') (a # header @ ''base64'') = ''base64,''"
      using eq by simp
    then have "CHR '','' \<in> set (take (length ''base64,'') (a # header @ ''base64''))"
      by simp
    then have "CHR '','' \<in> set (a # header @ ''base64'')"
      by (rule in_set_takeD)
    with Cons.prems show False
      by simp
  qed
  moreover from Cons have "find_sub ''base64,'' (header @ ''base64,'') = Some (header, [])"
    by simp
  ultimately show ?case
    by (simp del: take_Suc_Cons length_Cons list.size)
qed

text \<open>
  C9. Let the payload hold no data-URL marker \<^verbatim>\<open>base64,\<close> (no text over the base64
  alphabet does, for want of a comma) and let the prefix be a header followed by the
  marker, the marker occurring in the prefix at its end only (as in every data-URL
  prefix, whose only comma is its last character). Then decoding the prefixed payload
  gives what decoding the bare payload gives: the same image when the payload decodes to
  one, \<^verbatim>\<open>None\<close> otherwise. By \<open>no_comma_no_marker\<close> and \<open>header_without_comma\<close> both
  hypotheses hold whenever neither the payload nor the header holds a comma.
\<close>

theorem decode_prefix_equivalent:
  "\<not> py_in ''base64,'' payload \<Longrightarrow>
   find_sub ''base64,'' (header @ ''base64,'') = Some (header, []) \<Longrightarrow>
   decode_base64_image L (header @ ''base64,'' @ payload) = decode_base64_image L payload"
proof -
  assume bare: "\<not> py_in ''base64,'' payload"
    and header: "find_sub ''base64,'' (header @ ''base64,'') = Some (header, [])"
  show ?thesis
    unfolding decode_base64_image_def strip_data_url_bare [OF bare]
      strip_data_url_prefixed [OF bare header]
    by (rule refl)
qed

theorem decode_prefix_equivalent_witness:
  "\<not> py_in ''base64,'' ''iVBORw0KGgo='' \<and>
   find_sub ''base64,'' (''data:image/png;'' @ ''base64,'') = Some (''data:image/png;'', []) \<and>
   (\<forall>L :: (nat list, nat list) libs.
      decode_base64_image L (''data:image/png;'' @ ''base64,'' @ ''iVBORw0KGgo='')
      = decode_base64_image L ''iVBORw0KGgo='')"
proof -
  have a: "\<not> py_in ''base64,'' ''iVBORw0KGgo=''"
    by (simp add: py_in_def)
  have b: "find_sub ''base64,'' (''data:image/png;'' @ ''base64,'') = Some (''data:image/png;'', [])"
    by simp
  show ?thesis
    using a b decode_prefix_equivalent [OF a b] by blast
qed

section \<open>Properties of the batch and single-sheet endpoints\<close>

lemma map_of_dict_set:
  "map_of (dict_set d k v) k' = (if k' = k then Some v else map_of d k')"
  by (induction d) auto

lemma allowed_a_png: "allowed_file ''a.png''"
  by (simp add: allowed_file_def rsplit_dot_1_def lower_def lower_char_def ALLOWED_EXTENSIONS_def)

lemma allowed_b_png: "allowed_file ''b.png''"
  by (simp add: allowed_file_def rsplit_dot_1_def lower_def lower_char_def ALLOWED_EXTENSIONS_def)

lemma not_allowed_notes_txt: "\<not> allowed_file ''notes.txt''"
  by (simp add: allowed_file_def rsplit_dot_1_def lower_def lower_char_def ALLOWED_EXTENSIONS_def)

lemma staged_a_png: "os_path_join UPLOAD_FOLDER ''a.png'' = ''api_uploads/a.png''"
  by (simp add: os_path_join_def UPLOAD_FOLDER_def)

lemma staged_b_png: "os_path_join UPLOAD_FOLDER ''b.png'' = ''api_uploads/b.png''"
  by (simp add: os_path_join_def UPLOAD_FOLDER_def)

lemmas example_defs =
  batch_process_def batch_item_def process_omr_def stage_request_def recognize_staged_def
  process_failed_def file_save_def clean_up_def os_path_exists_def os_remove_def
  has_status_def error_entry_def sheet_def second_sheet_def text_file_def plain_libs_def
  locked_libs_def no_objects_def reads_sheet_def reports_error_def crashes_def
  allowed_a_png allowed_b_png not_allowed_notes_txt staged_a_png staged_b_png Let_def

text \<open>A batch in which nothing faults: one sheet is read, one file is turned away.\<close>

lemma batch_example:
  "batch_process plain_libs (Some reads_sheet) Map.empty no_objects (Some [sheet, text_file]) =
     (Map.empty,
      no_objects(0 := [(''answers'', JObj [(''1'', JStr ''A'')]),
                       (''filename'', JStr ''a.png''), (''status'', JStr ''success'')]),
      (JObj [(''total'', JInt 2), (''processed'', JInt 1), (''failed'', JInt 1),
             (''results'',
              JList [JObj [(''answers'', JObj [(''1'', JStr ''A'')]),
                           (''filename'', JStr ''a.png''), (''status'', JStr ''success'')],
                     JObj [(''filename'', JStr ''notes.txt''), (''status'', JStr ''error''),
                           (''error'', JStr ''Invalid file'')]])],
       200))"
  by (simp add: example_defs)

text \<open>
  When \<^verbatim>\<open>os.remove\<close> never raises, every turn of the loop appends exactly one entry, so
  the \<^verbatim>\<open>results\<close> list has the length of the batch.
\<close>

lemma batch_item_one_entry:
  assumes "\<forall>fs path. remove_raises L fs path = None"
  shows "\<exists>fs' hp' e. batch_item L processor f (fs, hp, results) = (fs', hp', results @ [e])"
  using assms
  by (auto simp: batch_item_def Let_def file_save_def clean_up_def os_remove_def
      split: option.splits sum.splits recognition.splits prod.splits)

lemma batch_loop_one_entry_each:
  assumes "\<forall>fs path. remove_raises L fs path = None"
  shows "\<exists>fs' hp' es. batch_loop L processor files (fs, hp, results) = (fs', hp', results @ es)
            \<and> length es = length files"
proof (induction files arbitrary: fs hp results)
  case Nil
  then show ?case by simp
next
  case (Cons f files)
  from batch_item_one_entry [OF assms, of processor f fs hp results]
  obtain fs1 hp1 e where item: "batch_item L processor f (fs, hp, results) = (fs1, hp1, results @ [e])"
    by blast
  from Cons.IH [of fs1 hp1 "results @ [e]"]
  obtain fs' hp' es where
    loop: "batch_loop L processor files (fs1, hp1, results @ [e]) = (fs', hp', (results @ [e]) @ es)"
    and len: "length es = length files"
    by blast
  have "batch_loop L processor (f # files) (fs, hp, results) = (fs', hp', results @ e # es)"
    using item loop by simp
  moreover have "length (e # es) = length (f # files)"
    using len by simp
  ultimately show ?case
    by blast
qed

text \<open>
  The loop writes into the dictionary the recognizer returns. When the recognizer returns
  the same object for two sheets, both entries of the \<^verbatim>\<open>results\<close> list are that object
  and both show the name of the second sheet.
\<close>

lemma batch_shared_result_object:
  "snd (snd (batch_process plain_libs (Some reads_sheet) Map.empty no_objects
               (Some [sheet, second_sheet]))) =
     (JObj [(''total'', JInt 2), (''processed'', JInt 2), (''failed'', JInt 0),
            (''results'',
             JList [JObj [(''answers'', JObj [(''1'', JStr ''A'')]),
                          (''filename'', JStr ''b.png''), (''status'', JStr ''success'')],
                    JObj [(''answers'', JObj [(''1'', JStr ''A'')]),
                          (''filename'', JStr ''b.png''), (''status'', JStr ''success'')]])],
      200)"
  by (simp add: example_defs)

text \<open>
  C2. The claim does not hold of the batch loop when the clean-up raises. The loop appends
  the recognizer's result before it removes the staged file, inside the same \<^verbatim>\<open>try\<close>; an
  \<^verbatim>\<open>os.remove\<close> that raises reaches the \<^verbatim>\<open>except\<close> branch, which appends an error entry for
  the same submission. For a batch of one sheet the report has two results, one tagged
  \<^verbatim>\<open>success\<close> and one tagged \<^verbatim>\<open>error\<close>, with \<^verbatim>\<open>total\<close> 1, \<^verbatim>\<open>processed\<close> 1 and \<^verbatim>\<open>failed\<close> 1.
\<close>

theorem batch_remove_fault_reports_twice:
  "snd (snd (batch_process locked_libs (Some reads_sheet) Map.empty no_objects (Some [sheet]))) =
     (JObj [(''total'', JInt 1), (''processed'', JInt 1), (''failed'', JInt 1),
            (''results'',
             JList [JObj [(''answers'', JObj [(''1'', JStr ''A'')]),
                          (''filename'', JStr ''a.png''), (''status'', JStr ''success'')],
                    JObj [(''filename'', JStr ''a.png''), (''status'', JStr ''error''),
                          (''error'', JStr (permission_denied ''api_uploads/a.png''))]])],
      200)"
  by (simp add: example_defs)

text \<open>
  C1. The claim does not hold of the batch loop for an error the recognizer reports
  rather than raises. On the sheet whose recognition returns \<^verbatim>\<open>{'error': ...}\<close> the batch
  endpoint appends the dictionary tagged \<^verbatim>\<open>success\<close> and counts it as processed, while
  the single-sheet endpoint answers the same recognition with status 500.
\<close>

theorem batch_reported_error_tagged_success:
  "snd (snd (batch_process plain_libs (Some reports_error) Map.empty no_objects (Some [sheet]))) =
     (JObj [(''total'', JInt 1), (''processed'', JInt 1), (''failed'', JInt 0),
            (''results'',
             JList [JObj [(''error'', JStr ''Could not read image''),
                          (''filename'', JStr ''a.png''), (''status'', JStr ''success'')]])],
      200) \<and>
   snd (snd (process_omr plain_libs (Some reports_error) Map.empty no_objects
               \<lparr>file_field = Some sheet, json_image = None\<rparr>)) =
     (JObj [(''error'', JStr ''Could not read image'')], 500)"
  by (simp add: example_defs)

text \<open>
  C7. The claim does not hold of the batch loop when the recognizer raises: the
  \<^verbatim>\<open>except\<close> branch appends the error entry and leaves the staged file in the folder.
  The single-sheet endpoint removes it on the same fault.
\<close>

theorem batch_fault_leaves_staged_file:
  "fst (batch_process plain_libs (Some crashes) Map.empty no_objects (Some [sheet])) =
     [''api_uploads/a.png'' \<mapsto> [137, 80, 78, 71]] \<and>
   snd (snd (batch_process plain_libs (Some crashes) Map.empty no_objects (Some [sheet]))) =
     (JObj [(''total'', JInt 1), (''processed'', JInt 0), (''failed'', JInt 1),
            (''results'',
             JList [JObj [(''filename'', JStr ''a.png''), (''status'', JStr ''error''),
                          (''error'', JStr ''corrupt image'')]])],
      200) \<and>
   fst (process_omr plain_libs (Some crashes) Map.empty no_objects
          \<lparr>file_field = Some sheet, json_image = None\<rparr>) = Map.empty \<and>
   snd (snd (process_omr plain_libs (Some crashes) Map.empty no_objects
               \<lparr>file_field = Some sheet, json_image = None\<rparr>)) =
     (JObj [(''error'', JStr ''corrupt image''), (''processing_status'', JStr ''failed'')],
      500)"
  by (simp add: example_defs)

text \<open>
  C8. The claim does not hold of the batch endpoint, which has no availability check.
  With no recognizer loaded it stages the file, reports the \<^verbatim>\<open>AttributeError\<close> of the call
  on \<^verbatim>\<open>None\<close> as an error entry of that file and answers with status 200; the
  single-sheet endpoint answers with status 503 and touches nothing.
\<close>

theorem batch_without_model_attempts_work:
  "batch_process plain_libs None Map.empty no_objects (Some [sheet]) =
     ([''api_uploads/a.png'' \<mapsto> [137, 80, 78, 71]], no_objects,
      (JObj [(''total'', JInt 1), (''processed'', JInt 0), (''failed'', JInt 1),
             (''results'',
              JList [JObj [(''filename'', JStr ''a.png''), (''status'', JStr ''error''),
                           (''error'', JStr none_has_no_process_omr)]])],
       200)) \<and>
   process_omr plain_libs None Map.empty no_objects
       \<lparr>file_field = Some sheet, json_image = None\<rparr> =
     (Map.empty, no_objects,
      (JObj [(''error'', JStr ''Model not loaded''),
             (''message'', JStr ''OMR processor is not available. Please check server logs.'')],
       503))"
  by (simp add: batch_process_def batch_item_def process_omr_def file_save_def sheet_def
      plain_libs_def allowed_a_png staged_a_png has_status_def error_entry_def Let_def)

end
